theory Spec2Isabelle
  imports Complex_Main
begin

section \<open>The adaptive benchmark runner of \<open>benchmark.py\<close>\<close>

text \<open>
  The runner times a callable through \<open>timeit.Timer\<close>. What the timer observes is the
  environment of the program, so the callable is modelled by what its \<open>i\<close>-th invocation
  (counted from 0 over the whole run) does: it returns after a measured duration, or it
  raises. Durations are exact reals: rounding of IEEE doubles is outside the model. The
  values \<open>nan\<close> that \<open>torch\<close> produces on degenerate inputs are kept.
\<close>

datatype 'e outcome = Returns real | Raises 'e

type_synonym 'e callable = "nat \<Rightarrow> 'e outcome"

datatype 'e error = ValueError | ZeroDivisionError | Propagated 'e

datatype pyfloat = Finite real | NaN

record BenchmarkResult =
  mean :: pyfloat
  std :: pyfloat

text \<open>
  The local variables of \<open>benchmark\<close> that live across the loop, and the number of
  invocations of the callable made so far (a ghost counter: the instrumented callable
  of the specification).
\<close>

record loop_state =
  calls :: nat
  times_acc :: "real list"
  total_time :: real
  num_iterations :: int

subsection \<open>\<open>Timer.repeat(number=1, repeat=n)\<close>\<close>

text \<open>
  \<open>repeat\<close> runs \<open>for i in range(repeat)\<close>, one invocation per round, and collects
  the durations; an exception of the callable leaves at once. The first component of the
  result is the invocation counter afterwards. A count \<open>n \<le> 0\<close> gives an empty range,
  which the caller gets by \<open>nat n = 0\<close>.
\<close>

fun timer_repeat :: "'e callable \<Rightarrow> nat \<Rightarrow> nat \<Rightarrow> nat \<times> ('e + real list)" where
  "timer_repeat fn 0 c = (c, Inr [])"
| "timer_repeat fn (Suc n) c =
     (case fn c of
        Raises e \<Rightarrow> (Suc c, Inl e)
      | Returns t \<Rightarrow>
          (case timer_repeat fn n (Suc c) of
             (c', Inl e) \<Rightarrow> (c', Inl e)
           | (c', Inr ts) \<Rightarrow> (c', Inr (t # ts))))"

subsection \<open>One pass of the accumulation loop (lines 64 to 71)\<close>

text \<open>
  Python raises \<open>ZeroDivisionError\<close> for \<open>_total_time / num_iterations\<close> when
  \<open>num_iterations\<close> is 0 and for the division by \<open>avg_time\<close> when that is zero.
  An error carries the invocation counter at the moment it is raised.
\<close>

definition loop_body :: "'e callable \<Rightarrow> real \<Rightarrow> loop_state \<Rightarrow> (nat \<times> 'e error) + loop_state" where
  "loop_body fn min_total_seconds s =
     (case timer_repeat fn (nat (num_iterations s)) (calls s) of
        (c', Inl e) \<Rightarrow> Inl (c', Propagated e)
      | (c', Inr ts) \<Rightarrow>
          (let times' = times_acc s @ ts;
               batch_total = sum_list ts;
               total_time' = total_time s + batch_total
           in if num_iterations s = 0 then Inl (c', ZeroDivisionError)
              else let avg_time = batch_total / real_of_int (num_iterations s)
                   in if avg_time = 0 then Inl (c', ZeroDivisionError)
                      else Inr \<lparr> calls = c', times_acc = times',
                                 total_time = total_time',
                                 num_iterations = \<lceil>(min_total_seconds - total_time') / avg_time\<rceil> \<rparr>))"

subsection \<open>The loop \<open>while total_time < min_total_seconds\<close>\<close>

text \<open>
  The loop need not end (durations that shrink fast enough keep the total below the
  budget for ever), so it is a partial function: \<open>None\<close> is a run that never returns.
\<close>

partial_function (option) accumulate ::
  "'e callable \<Rightarrow> real \<Rightarrow> loop_state \<Rightarrow> ((nat \<times> 'e error) + loop_state) option" where
  "accumulate fn min_total_seconds s =
     (if total_time s < min_total_seconds then
        (case loop_body fn min_total_seconds s of
           Inl err \<Rightarrow> Some (Inl err)
         | Inr s' \<Rightarrow> accumulate fn min_total_seconds s')
      else Some (Inr s))"

subsection \<open>The statistics of \<open>torch\<close> (lines 73 to 77)\<close>

text \<open>
  \<open>Tensor.mean()\<close> of an empty tensor is \<open>nan\<close>; \<open>Tensor.std()\<close> is the unbiased
  estimator (Bessel's correction) and is \<open>nan\<close> on fewer than two elements.
\<close>

definition tensor_mean :: "real list \<Rightarrow> pyfloat" where
  "tensor_mean ts =
     (if ts = [] then NaN else Finite (sum_list ts / real (length ts)))"

definition tensor_std :: "real list \<Rightarrow> pyfloat" where
  "tensor_std ts =
     (if length ts < 2 then NaN
      else let m = sum_list ts / real (length ts)
           in Finite (sqrt (sum_list (map (\<lambda>t. (t - m)\<^sup>2) ts) / real (length ts - 1))))"

subsection \<open>\<open>benchmark\<close>\<close>

text \<open>
  \<open>benchmark_times\<close> is \<open>benchmark\<close> up to line 71: the argument check, the warm-up
  invocation, whose duration is dropped, and the loop. It yields the invocation counter
  and the list \<open>times\<close>, or the exception that left the function.
\<close>

definition init_state :: "nat \<Rightarrow> int \<Rightarrow> loop_state" where
  "init_state c min_iterations =
     \<lparr> calls = c, times_acc = [], total_time = 0,
       num_iterations = (if min_iterations = 0 then 1 else min_iterations) \<rparr>"

definition benchmark_times ::
  "'e callable \<Rightarrow> real \<Rightarrow> int \<Rightarrow> (nat \<times> ('e error + real list)) option" where
  "benchmark_times fn min_total_seconds min_iterations =
     (if min_iterations < 2 then Some (0, Inl ValueError)
      else case timer_repeat fn 1 0 of
             (c, Inl e) \<Rightarrow> Some (c, Inl (Propagated e))
           | (c, Inr _) \<Rightarrow>
               (case accumulate fn min_total_seconds (init_state c min_iterations) of
                  None \<Rightarrow> None
                | Some (Inl (c', err)) \<Rightarrow> Some (c', Inl err)
                | Some (Inr s) \<Rightarrow> Some (calls s, Inr (times_acc s))))"

definition benchmark ::
  "'e callable \<Rightarrow> real \<Rightarrow> int \<Rightarrow> (nat \<times> ('e error + BenchmarkResult)) option" where
  "benchmark fn min_total_seconds min_iterations =
     (case benchmark_times fn min_total_seconds min_iterations of
        None \<Rightarrow> None
      | Some (c, Inl err) \<Rightarrow> Some (c, Inl err)
      | Some (c, Inr ts) \<Rightarrow>
          Some (c, Inr \<lparr> mean = tensor_mean ts, std = tensor_std ts \<rparr>))"

subsection \<open>The passes of the loop as a relation\<close>

text \<open>
  \<open>pass fn T s s'\<close>: the loop test lets the body run in state \<open>s\<close>, and the body
  ends normally in state \<open>s'\<close>. The states the loop goes through are those reachable
  by \<open>(pass fn T)\<^sup>*\<^sup>*\<close> from the state before the loop.
\<close>

definition pass :: "'e callable \<Rightarrow> real \<Rightarrow> loop_state \<Rightarrow> loop_state \<Rightarrow> bool" where
  "pass fn min_total_seconds s s' \<longleftrightarrow>
     total_time s < min_total_seconds \<and> loop_body fn min_total_seconds s = Inr s'"

text \<open>
  What the loop keeps true of its variables, for a loop entered after \<open>c0\<close>
  invocations: every invocation since then has one recorded duration, in order, and
  \<open>total_time\<close> is the sum of the recorded durations.
\<close>

definition records :: "'e callable \<Rightarrow> nat \<Rightarrow> loop_state \<Rightarrow> bool" where
  "records fn c0 s \<longleftrightarrow>
     calls s = c0 + length (times_acc s) \<and>
     total_time s = sum_list (times_acc s) \<and>
     (\<forall>j<length (times_acc s). fn (c0 + j) = Returns (times_acc s ! j))"

subsection \<open>The estimate in the words of the specification\<close>

text \<open>
  The number of further trials as the specification puts it: the budget that is left,
  divided by the average of all durations recorded so far, rounded up.
\<close>

definition spec_estimate :: "real \<Rightarrow> loop_state \<Rightarrow> int" where
  "spec_estimate min_total_seconds s =
     \<lceil>(min_total_seconds - total_time s)
        / (sum_list (times_acc s) / real (length (times_acc s)))\<rceil>"

subsection \<open>The textbook statistics\<close>

text \<open>
  The arithmetic mean and the sample standard deviation (the sum of squared deviations
  divided by \<open>N - 1\<close>) as the specification names them, on real numbers. They are
  meaningful from one and from two elements on.
\<close>

definition arithmetic_mean :: "real list \<Rightarrow> real" where
  "arithmetic_mean xs = (\<Sum>x\<leftarrow>xs. x) / real (length xs)"

definition sample_std :: "real list \<Rightarrow> real" where
  "sample_std xs =
     sqrt ((\<Sum>x\<leftarrow>xs. (x - arithmetic_mean xs)\<^sup>2) / (real (length xs) - 1))"

subsection \<open>Callables used as concrete inputs\<close>

definition constant_callable :: "real \<Rightarrow> 'e callable" where
  "constant_callable d = (\<lambda>i. Returns d)"

definition raising_callable :: "nat \<Rightarrow> 'e \<Rightarrow> real \<Rightarrow> 'e callable" where
  "raising_callable j e d = (\<lambda>i. if i = j then Raises e else Returns d)"

definition speeding_callable :: "nat \<Rightarrow> real \<Rightarrow> real \<Rightarrow> 'e callable" where
  "speeding_callable j d1 d2 = (\<lambda>i. if i < j then Returns d1 else Returns d2)"

section \<open>Properties of \<open>Timer.repeat\<close>\<close>

lemma constant_callable_apply: "constant_callable d i = Returns d"
  by (simp add: constant_callable_def)

lemma timer_repeat_constant:
  "timer_repeat (constant_callable d) n c = (c + n, Inr (replicate n d))"
  by (induction n arbitrary: c) (simp_all add: constant_callable_def)

lemma replicate_two: "replicate 2 x = [x, x]"
  by (simp add: numeral_2_eq_2)

lemma warm_up_eq:
  "timer_repeat fn (Suc 0) 0 =
     (case fn 0 of Returns t \<Rightarrow> (1, Inr [t]) | Raises e \<Rightarrow> (1, Inl e))"
  by (simp split: outcome.splits)

lemmas run_defs = Let_def sum_list_replicate benchmark_def benchmark_times_def
  init_state_def loop_body_def tensor_mean_def tensor_std_def

lemma timer_repeat_Inr:
  "timer_repeat fn n c = (c', Inr ts) \<Longrightarrow>
     c' = c + n \<and> length ts = n \<and> (\<forall>j<n. fn (c + j) = Returns (ts ! j))"
proof (induction n arbitrary: c c' ts)
  case 0
  then show ?case by simp
next
  case (Suc n)
  from Suc.prems obtain t ts' where
    ft: "fn c = Returns t" and rec: "timer_repeat fn n (Suc c) = (c', Inr ts')" and ts: "ts = t # ts'"
    by (auto split: outcome.splits prod.splits sum.splits)
  from Suc.IH[OF rec] have ih: "c' = Suc c + n" "length ts' = n"
    "\<forall>j<n. fn (Suc c + j) = Returns (ts' ! j)" by auto
  show ?case
  proof (intro conjI allI impI)
    fix j assume "j < Suc n"
    then show "fn (c + j) = Returns (ts ! j)"
      using ft ih(3) ts by (cases j) auto
  qed (use ih ts in auto)
qed

lemma timer_repeat_Inl:
  "timer_repeat fn n c = (c', Inl e) \<Longrightarrow>
     c < c' \<and> c' \<le> c + n \<and> fn (c' - 1) = Raises e"
proof (induction n arbitrary: c)
  case 0
  then show ?case by simp
next
  case (Suc n)
  show ?case
  proof (cases "fn c")
    case (Raises e')
    with Suc.prems show ?thesis by auto
  next
    case (Returns t)
    with Suc.prems have "timer_repeat fn n (Suc c) = (c', Inl e)"
      by (auto split: prod.splits sum.splits)
    from Suc.IH[OF this] show ?thesis by auto
  qed
qed


lemma timer_repeat_before_raise:
  assumes "fn i = Raises e" and "c \<le> i"
  shows "case timer_repeat fn n c of
           (c', Inl e') \<Rightarrow> c' \<le> Suc i \<and> (c' = Suc i \<longrightarrow> e' = e)
         | (c', Inr ts) \<Rightarrow> c' = c + n \<and> c' \<le> i"
  using assms(2)
proof (induction n arbitrary: c)
  case 0
  then show ?case by simp
next
  case (Suc n)
  show ?case
  proof (cases "fn c")
    case (Raises e')
    with Suc.prems assms(1) show ?thesis by (cases "c = i") auto
  next
    case (Returns t)
    with assms(1) Suc.prems have "Suc c \<le> i" by (cases "c = i") auto
    from Suc.IH[OF this] Returns show ?thesis
      by (auto split: prod.splits sum.splits)
  qed
qed


section \<open>Partial correctness of the loop\<close>

lemma accumulate_Some:
  assumes "accumulate fn T s = Some r"
  shows "case r of
        Inr s' \<Rightarrow> (pass fn T)\<^sup>*\<^sup>* s s' \<and> \<not> total_time s' < T
      | Inl err \<Rightarrow> (\<exists>s1. (pass fn T)\<^sup>*\<^sup>* s s1 \<and> total_time s1 < T \<and> loop_body fn T s1 = Inl err)"
proof -
  let ?P = "\<lambda>fn T s r. case r of
        Inr s' \<Rightarrow> (pass fn T)\<^sup>*\<^sup>* s s' \<and> \<not> total_time s' < T
      | Inl err \<Rightarrow> (\<exists>s1. (pass fn T)\<^sup>*\<^sup>* s s1 \<and> total_time s1 < T \<and> loop_body fn T s1 = Inl err)"
  show ?thesis
  proof (rule accumulate.raw_induct[where P = ?P, OF _ assms])
    fix f fn T s r
    assume IH: "\<And>fn T s y. f fn T s = Some y \<Longrightarrow> ?P fn T s y"
      and eq: "(if total_time s < T
          then case loop_body fn T s of Inl err \<Rightarrow> Some (Inl err) | Inr s' \<Rightarrow> f fn T s'
          else Some (Inr s)) = Some r"
    show "?P fn T s r"
    proof (cases "total_time s < T")
      case False
      with eq show ?thesis by auto
    next
      case True
      show ?thesis
      proof (cases "loop_body fn T s")
        case (Inl err)
        with True eq show ?thesis by auto
      next
        case (Inr s')
        with True have p: "pass fn T s s'" by (simp add: pass_def)
        from Inr True eq have "f fn T s' = Some r" by simp
        then have ih: "?P fn T s' r" by (rule IH)
        show ?thesis
        proof (cases r)
          case (Inl err)
          with ih obtain s1 where "(pass fn T)\<^sup>*\<^sup>* s' s1" "total_time s1 < T" "loop_body fn T s1 = Inl err"
            by auto
          with p Inl show ?thesis
            by (auto intro: converse_rtranclp_into_rtranclp)
        next
          case (Inr s'')
          with ih p show ?thesis
            by (auto intro: converse_rtranclp_into_rtranclp)
        qed
      qed
    qed
  qed
qed

lemma loop_body_Inr:
  assumes "loop_body fn T s = Inr s'"
  obtains ts where
    "timer_repeat fn (nat (num_iterations s)) (calls s) = (calls s', Inr ts)"
    "0 < num_iterations s" "sum_list ts \<noteq> 0"
    "times_acc s' = times_acc s @ ts"
    "total_time s' = total_time s + sum_list ts"
    "num_iterations s' = \<lceil>(T - total_time s') / (sum_list ts / real_of_int (num_iterations s))\<rceil>"
proof -
  obtain c' r where tr: "timer_repeat fn (nat (num_iterations s)) (calls s) = (c', r)"
    by (cases "timer_repeat fn (nat (num_iterations s)) (calls s)")
  with assms obtain ts where r: "r = Inr ts"
    by (cases r) (auto simp: loop_body_def)
  from assms tr r have n0: "num_iterations s \<noteq> 0" and s0: "sum_list ts \<noteq> 0"
    by (auto simp: loop_body_def Let_def split: if_splits)
  from assms tr r n0 s0 have s': "s' = \<lparr> calls = c', times_acc = times_acc s @ ts,
      total_time = total_time s + sum_list ts,
      num_iterations = \<lceil>(T - (total_time s + sum_list ts)) / (sum_list ts / real_of_int (num_iterations s))\<rceil> \<rparr>"
    by (simp add: loop_body_def Let_def)
  have "0 < num_iterations s"
  proof (rule ccontr)
    assume "\<not> 0 < num_iterations s"
    then have "nat (num_iterations s) = 0" by simp
    with tr r have "ts = []" by simp
    with s0 show False by simp
  qed
  with tr r s0 s' show thesis
    by (intro that[of ts]) simp_all
qed

lemma pass_records:
  assumes "pass fn T s s'" and "records fn c0 s"
  shows "records fn c0 s'"
proof -
  from assms(1) have lb: "loop_body fn T s = Inr s'" by (simp add: pass_def)
  then obtain ts where tr: "timer_repeat fn (nat (num_iterations s)) (calls s) = (calls s', Inr ts)"
    and ta: "times_acc s' = times_acc s @ ts"
    and tt: "total_time s' = total_time s + sum_list ts"
    by (rule loop_body_Inr)
  from timer_repeat_Inr[OF tr] have c': "calls s' = calls s + nat (num_iterations s)"
    and len: "length ts = nat (num_iterations s)"
    and ret: "\<forall>j<nat (num_iterations s). fn (calls s + j) = Returns (ts ! j)" by auto
  from assms(2) have cs: "calls s = c0 + length (times_acc s)"
    and ts: "total_time s = sum_list (times_acc s)"
    and rs: "\<forall>j<length (times_acc s). fn (c0 + j) = Returns (times_acc s ! j)"
    by (auto simp: records_def)
  have "fn (c0 + j) = Returns (times_acc s' ! j)" if "j < length (times_acc s')" for j
  proof (cases "j < length (times_acc s)")
    case True
    with rs ta show ?thesis by (simp add: nth_append)
  next
    case False
    with that ta len have "j - length (times_acc s) < nat (num_iterations s)" by simp
    with ret have "fn (calls s + (j - length (times_acc s))) = Returns (ts ! (j - length (times_acc s)))"
      by blast
    with False cs ta show ?thesis by (simp add: nth_append)
  qed
  with c' cs len ta tt ts show ?thesis by (simp add: records_def)
qed

lemma passes_records:
  "(pass fn T)\<^sup>*\<^sup>* s s' \<Longrightarrow> records fn c0 s \<Longrightarrow> records fn c0 s'"
  by (induction rule: rtranclp_induct) (auto intro: pass_records)

lemma records_init: "records fn c (init_state c k)"
  by (simp add: records_def init_state_def)

lemma pass_length:
  assumes "pass fn T s s'"
  shows "length (times_acc s') = length (times_acc s) + nat (num_iterations s)"
    and "0 < num_iterations s"
proof -
  from assms have lb: "loop_body fn T s = Inr s'" by (simp add: pass_def)
  then obtain ts where tr: "timer_repeat fn (nat (num_iterations s)) (calls s) = (calls s', Inr ts)"
    and ta: "times_acc s' = times_acc s @ ts" and pos: "0 < num_iterations s"
    by (rule loop_body_Inr)
  from timer_repeat_Inr[OF tr] ta show "length (times_acc s') = length (times_acc s) + nat (num_iterations s)"
    by simp
  from pos show "0 < num_iterations s" .
qed

lemma passes_length_mono:
  "(pass fn T)\<^sup>*\<^sup>* s s' \<Longrightarrow> length (times_acc s) \<le> length (times_acc s')"
  by (induction rule: rtranclp_induct) (auto dest: pass_length(1))

lemma benchmark_times_Inr:
  assumes "benchmark_times fn T k = Some (c, Inr ts)"
  obtains t0 s' where "2 \<le> k" "fn 0 = Returns t0"
    "accumulate fn T (init_state 1 k) = Some (Inr s')"
    "(pass fn T)\<^sup>*\<^sup>* (init_state 1 k) s'" "T \<le> total_time s'"
    "c = calls s'" "ts = times_acc s'"
proof -
  from assms have k: "2 \<le> k" by (auto simp: benchmark_times_def split: if_splits)
  from assms k obtain t0 where t0: "fn 0 = Returns t0"
    by (cases "fn 0") (auto simp: benchmark_times_def warm_up_eq)
  from assms k t0 obtain s' where acc: "accumulate fn T (init_state 1 k) = Some (Inr s')"
    and c: "c = calls s'" and ts: "ts = times_acc s'"
    by (auto simp: benchmark_times_def warm_up_eq split: option.splits sum.splits)
  from accumulate_Some[OF acc] have "(pass fn T)\<^sup>*\<^sup>* (init_state 1 k) s'" "T \<le> total_time s'"
    by auto
  with k t0 acc c ts show thesis by (intro that)
qed

lemma benchmark_times_recorded:
  assumes "benchmark_times fn T k = Some (c, Inr ts)"
  shows "c = 1 + length ts" and "T \<le> sum_list ts"
    and "\<And>j. j < length ts \<Longrightarrow> fn (Suc j) = Returns (ts ! j)"
proof -
  from assms obtain s' where p: "(pass fn T)\<^sup>*\<^sup>* (init_state 1 k) s'"
    and T: "T \<le> total_time s'" and c: "c = calls s'" and ts: "ts = times_acc s'"
    by (rule benchmark_times_Inr)
  from passes_records[OF p records_init] have r: "records fn 1 s'" .
  from r c ts show "c = 1 + length ts" by (simp add: records_def)
  from r T ts show "T \<le> sum_list ts" by (simp add: records_def)
  fix j assume "j < length ts"
  with r ts show "fn (Suc j) = Returns (ts ! j)" by (simp add: records_def)
qed

lemma benchmark_times_min_trials:
  assumes "benchmark_times fn T k = Some (c, Inr ts)" and "0 < T"
  shows "k \<le> int (length ts)"
proof -
  from assms(1) obtain s' where k: "2 \<le> k" and p: "(pass fn T)\<^sup>*\<^sup>* (init_state 1 k) s'"
    and T: "T \<le> total_time s'" and ts: "ts = times_acc s'"
    by (rule benchmark_times_Inr)
  from T assms(2) have "init_state 1 k \<noteq> s'" by (auto simp: init_state_def)
  with p obtain s1 where p1: "pass fn T (init_state 1 k) s1" and p2: "(pass fn T)\<^sup>*\<^sup>* s1 s'"
    by (auto elim: converse_rtranclpE)
  from pass_length(1)[OF p1] k have "length (times_acc s1) = nat k"
    by (simp add: init_state_def)
  with passes_length_mono[OF p2] ts k show ?thesis by simp
qed

section \<open>The warm-up invocation\<close>

lemma timer_repeat_cong:
  "(\<And>i. c \<le> i \<Longrightarrow> fn i = fn' i) \<Longrightarrow> timer_repeat fn n c = timer_repeat fn' n c"
proof (induction n arbitrary: c)
  case 0
  then show ?case by simp
next
  case (Suc n)
  have rest: "timer_repeat fn n (Suc c) = timer_repeat fn' n (Suc c)"
    by (rule Suc.IH) (simp add: Suc.prems)
  have first: "fn c = fn' c" by (simp add: Suc.prems)
  show ?case by (simp only: timer_repeat.simps rest first)
qed

lemma loop_body_cong:
  assumes "\<And>i. calls s \<le> i \<Longrightarrow> fn i = fn' i"
  shows "loop_body fn T s = loop_body fn' T s"
  using timer_repeat_cong[of "calls s" fn fn' "nat (num_iterations s)"] assms
  by (simp add: loop_body_def)

lemma pass_calls_mono:
  assumes "loop_body fn T s = Inr s'"
  shows "calls s < calls s'"
proof -
  from assms obtain ts where tr: "timer_repeat fn (nat (num_iterations s)) (calls s) = (calls s', Inr ts)"
    and pos: "0 < num_iterations s"
    by (rule loop_body_Inr)
  from timer_repeat_Inr[OF tr] pos show ?thesis by simp
qed

lemma accumulate_cong_Some:
  assumes "accumulate fn T s = Some r"
    and "\<And>i. c0 \<le> i \<Longrightarrow> fn i = fn' i" and "c0 \<le> calls s"
  shows "accumulate fn' T s = Some r"
proof -
  let ?P = "\<lambda>fn T s r. (\<forall>i\<ge>c0. fn i = fn' i) \<longrightarrow> c0 \<le> calls s \<longrightarrow> accumulate fn' T s = Some r"
  have "?P fn T s r"
  proof (rule accumulate.raw_induct[where P = ?P, OF _ assms(1)])
    fix f fn T s r
    assume IH: "\<And>fn T s y. f fn T s = Some y \<Longrightarrow> ?P fn T s y"
      and eq: "(if total_time s < T
          then case loop_body fn T s of Inl err \<Rightarrow> Some (Inl err) | Inr s' \<Rightarrow> f fn T s'
          else Some (Inr s)) = Some r"
    show "?P fn T s r"
    proof (intro impI)
      assume agree: "\<forall>i\<ge>c0. fn i = fn' i" and c0: "c0 \<le> calls s"
      then have lb: "loop_body fn T s = loop_body fn' T s"
        by (intro loop_body_cong) simp
      show "accumulate fn' T s = Some r"
      proof (cases "total_time s < T")
        case False
        with eq show ?thesis by (subst accumulate.simps) simp
      next
        case True
        show ?thesis
        proof (cases "loop_body fn T s")
          case (Inl err)
          with lb have "loop_body fn' T s = Inl err" by simp
          moreover from Inl True eq have "r = Inl err" by simp
          ultimately show ?thesis using True by (subst accumulate.simps) simp
        next
          case (Inr s')
          with True eq have "f fn T s' = Some r" by simp
          moreover from pass_calls_mono[OF Inr] c0 have "c0 \<le> calls s'" by simp
          ultimately have "accumulate fn' T s' = Some r" using IH agree by blast
          moreover from lb Inr have "loop_body fn' T s = Inr s'" by simp
          ultimately show ?thesis using True by (subst accumulate.simps) simp
        qed
      qed
    qed
  qed
  with assms(2,3) show ?thesis by simp
qed

lemma accumulate_cong:
  assumes "\<And>i. c0 \<le> i \<Longrightarrow> fn i = fn' i" and "c0 \<le> calls s"
  shows "accumulate fn T s = accumulate fn' T s"
proof (cases "accumulate fn T s")
  case (Some r)
  from accumulate_cong_Some[OF Some assms] Some show ?thesis by simp
next
  case None
  show ?thesis
  proof (cases "accumulate fn' T s")
    case (Some r)
    have "accumulate fn T s = Some r"
      by (rule accumulate_cong_Some[OF Some _ assms(2)]) (simp add: assms(1))
    with None show ?thesis by simp
  qed (simp add: None)
qed

lemma benchmark_times_warm_up_duration:
  assumes "fn 0 = Returns t"
  shows "benchmark_times (fn(0 := Returns t')) T k = benchmark_times fn T k"
proof -
  have "accumulate (fn(0 := Returns t')) T (init_state 1 k) = accumulate fn T (init_state 1 k)"
    by (rule accumulate_cong[of 1]) (simp_all add: init_state_def)
  with assms show ?thesis
    by (simp add: benchmark_times_def warm_up_eq)
qed

section \<open>The floors of a run with a positive budget\<close>

lemma positive_budget_floors:
  assumes "benchmark_times fn T k = Some (c, Inr ts)" and "0 < T"
  shows "k \<le> int (length ts) \<and> T \<le> sum_list ts"
  using benchmark_times_min_trials[OF assms] benchmark_times_recorded(2)[OF assms(1)]
  by simp

lemma constant_duration_trials:
  assumes run: "benchmark_times fn T k = Some (c, Inr ts)" and "0 < T" and "0 < d"
    and const: "\<And>i. 1 \<le> i \<Longrightarrow> fn i = Returns d"
  shows "max k \<lceil>T / d\<rceil> \<le> int (length ts)"
proof -
  have "ts ! j = d" if "j < length ts" for j
    using benchmark_times_recorded(3)[OF run that] const[of "Suc j"] by simp
  then have "ts = replicate (length ts) d"
    by (simp add: list_eq_iff_nth_eq)
  then have "sum_list ts = real (length ts) * d"
    by (metis sum_list_replicate)
  with benchmark_times_recorded(2)[OF run] \<open>0 < d\<close> have "T / d \<le> real (length ts)"
    by (simp add: pos_divide_le_eq)
  then have "\<lceil>T / d\<rceil> \<le> int (length ts)"
    by (simp add: ceiling_le_iff)
  with benchmark_times_min_trials[OF run \<open>0 < T\<close>] show ?thesis by simp
qed

lemma benchmark_Inr:
  assumes "benchmark fn T k = Some (c, Inr r)"
  obtains ts where "benchmark_times fn T k = Some (c, Inr ts)"
    "r = \<lparr> mean = tensor_mean ts, std = tensor_std ts \<rparr>"
  using assms by (auto simp: benchmark_def split: option.splits sum.splits)

lemma tensor_mean_arithmetic: "ts \<noteq> [] \<Longrightarrow> tensor_mean ts = Finite (arithmetic_mean ts)"
  by (simp add: tensor_mean_def arithmetic_mean_def)

lemma tensor_std_sample: "2 \<le> length ts \<Longrightarrow> tensor_std ts = Finite (sample_std ts)"
  by (simp add: tensor_std_def sample_std_def arithmetic_mean_def Let_def)

section \<open>Termination of the loop\<close>

lemma accumulate_reaches_raise:
  assumes "fn i = Raises e"
  shows "calls s \<le> i \<Longrightarrow>
    \<exists>r. accumulate fn T s = Some r \<and>
      (case r of
         Inl (c, err) \<Rightarrow> c \<le> Suc i \<and> (c = Suc i \<longrightarrow> err = Propagated e)
       | Inr s' \<Rightarrow> calls s' \<le> i)"
proof (induction "i - calls s" arbitrary: s rule: less_induct)
  case less
  show ?case
  proof (cases "total_time s < T")
    case False
    with less.prems show ?thesis by (subst accumulate.simps) simp
  next
    case True
    obtain c' res where tr: "timer_repeat fn (nat (num_iterations s)) (calls s) = (c', res)"
      by (cases "timer_repeat fn (nat (num_iterations s)) (calls s)")
    from timer_repeat_before_raise[where fn = fn and i = i and e = e and c = "calls s"
        and n = "nat (num_iterations s)", OF assms less.prems] tr
    have bound: "case res of Inl e' \<Rightarrow> c' \<le> Suc i \<and> (c' = Suc i \<longrightarrow> e' = e)
        | Inr ts \<Rightarrow> c' = calls s + nat (num_iterations s) \<and> c' \<le> i"
      by simp
    show ?thesis
    proof (cases "loop_body fn T s")
      case (Inl cerr)
      from Inl tr bound have "case cerr of (c, err) \<Rightarrow> c \<le> Suc i \<and> (c = Suc i \<longrightarrow> err = Propagated e)"
        by (cases res) (auto simp: loop_body_def Let_def split: if_splits)
      with Inl True show ?thesis by (subst accumulate.simps) simp
    next
      case (Inr s')
      from pass_calls_mono[OF Inr] have lt: "calls s < calls s'" .
      from Inr obtain ts where "timer_repeat fn (nat (num_iterations s)) (calls s) = (calls s', Inr ts)"
        by (rule loop_body_Inr)
      with tr bound have le: "calls s' \<le> i" by auto
      with lt have "i - calls s' < i - calls s" by simp
      from less.hyps[OF this le] obtain r where
        "accumulate fn T s' = Some r"
        "case r of Inl (c, err) \<Rightarrow> c \<le> Suc i \<and> (c = Suc i \<longrightarrow> err = Propagated e)
         | Inr s'' \<Rightarrow> calls s'' \<le> i"
        by blast
      with True Inr show ?thesis by (subst accumulate.simps) simp
    qed
  qed
qed

lemma benchmark_reaches_raise:
  assumes "fn i = Raises e"
  shows "\<exists>c res. benchmark fn T k = Some (c, res) \<and> c \<le> Suc i
           \<and> (c = Suc i \<longrightarrow> res = Inl (Propagated e))"
proof (cases "k < 2")
  case True
  then show ?thesis by (simp add: benchmark_def benchmark_times_def)
next
  case k: False
  show ?thesis
  proof (cases "fn 0")
    case (Raises e')
    with assms have "i = 0 \<longrightarrow> e' = e" by auto
    with k Raises show ?thesis
      by (auto simp: benchmark_def benchmark_times_def warm_up_eq)
  next
    case (Returns t)
    with assms have "calls (init_state 1 k) \<le> i"
      by (cases i) (auto simp: init_state_def)
    from accumulate_reaches_raise[where fn = fn and i = i and e = e
        and s = "init_state 1 k" and T = T, OF assms this] obtain r where
      acc: "accumulate fn T (init_state 1 k) = Some r"
      and r: "case r of Inl (c, err) \<Rightarrow> c \<le> Suc i \<and> (c = Suc i \<longrightarrow> err = Propagated e)
         | Inr s' \<Rightarrow> calls s' \<le> i"
      by blast
    show ?thesis
    proof (cases r)
      case (Inl cerr)
      with acc r k Returns show ?thesis
        by (cases cerr) (auto simp: benchmark_def benchmark_times_def warm_up_eq)
    next
      case (Inr s')
      with acc r k Returns show ?thesis
        by (auto simp: benchmark_def benchmark_times_def warm_up_eq)
    qed
  qed
qed

lemma raise_on_warm_up:
  assumes "2 \<le> k" and "fn 0 = Raises e"
  shows "benchmark fn T k = Some (1, Inl (Propagated e))"
  using assms by (simp add: benchmark_def benchmark_times_def warm_up_eq)

lemma raise_on_first_trial:
  assumes "2 \<le> k" and "0 < T" and "fn 0 = Returns t" and "fn 1 = Raises e"
  shows "benchmark fn T k = Some (2, Inl (Propagated e))"
proof -
  from assms(1) obtain m where m: "nat k = Suc m" by (cases "nat k") auto
  from assms(4) have "timer_repeat fn (nat k) (Suc 0) = (2, Inl e)"
    by (simp add: m)
  with assms(1) have "loop_body fn T (init_state 1 k) = Inl (2, Propagated e)"
    by (simp add: loop_body_def init_state_def)
  with assms(2) have "accumulate fn T (init_state 1 k) = Some (Inl (2, Propagated e))"
    by (subst accumulate.simps) (simp add: init_state_def)
  with assms(1,3) show ?thesis
    by (simp add: benchmark_def benchmark_times_def warm_up_eq)
qed





section \<open>The result of a run with a positive budget\<close>

lemma positive_budget_result_finite:
  assumes "benchmark fn T k = Some (c, Inr r)" and "0 < T"
  shows "\<exists>m sd. mean r = Finite m \<and> std r = Finite sd \<and> 0 \<le> sd"
proof -
  from assms(1) obtain ts where run: "benchmark_times fn T k = Some (c, Inr ts)"
    and r: "r = \<lparr> mean = tensor_mean ts, std = tensor_std ts \<rparr>"
    by (rule benchmark_Inr)
  from run have "2 \<le> k" by (rule benchmark_times_Inr)
  with benchmark_times_min_trials[OF run assms(2)] have two: "2 \<le> length ts" by simp
  then have "ts \<noteq> []" by auto
  with r have "mean r = Finite (arithmetic_mean ts)" by (simp add: tensor_mean_arithmetic)
  moreover from r two have "std r = Finite (sample_std ts)" by (simp add: tensor_std_sample)
  moreover have "0 \<le> sample_std ts"
  proof -
    have "0 \<le> (\<Sum>x\<leftarrow>ts. (x - arithmetic_mean ts)\<^sup>2)"
      by (rule sum_list_nonneg) auto
    moreover from two have "0 \<le> real (length ts) - 1" by simp
    ultimately show ?thesis
      unfolding sample_std_def by (intro real_sqrt_ge_zero divide_nonneg_nonneg)
  qed
  ultimately show ?thesis by blast
qed

section \<open>The claims\<close>

text \<open>
  Claim C2. A call with \<open>min_iterations < 2\<close> (1, 0 or negative) fails with
  \<open>ValueError\<close> before the timer is built: the invocation counter is 0, so the callable
  was never invoked, whatever it would have done.
\<close>

theorem min_iterations_below_two_rejected:
  "min_iterations < 2 \<Longrightarrow>
     benchmark fn min_total_seconds min_iterations = Some (0, Inl ValueError)"
  by (simp add: benchmark_def benchmark_times_def)

theorem min_iterations_below_two_rejected_witness:
  "(1::int) < 2 \<and> (0::int) < 2 \<and> (- 3::int) < 2
   \<and> benchmark (constant_callable 1 :: unit callable) 1 1 = Some (0, Inl ValueError)
   \<and> benchmark (raising_callable 0 () 1) 5 0 = Some (0, Inl ValueError)
   \<and> benchmark (constant_callable 1 :: unit callable) 1 (- 3) = Some (0, Inl ValueError)"
  using min_iterations_below_two_rejected [of 1 "constant_callable 1 :: unit callable" 1]
    min_iterations_below_two_rejected [of 0 "raising_callable 0 () 1" 5]
    min_iterations_below_two_rejected [of "- 3" "constant_callable 1 :: unit callable" 1]
  by simp

text \<open>
  Claim C10. With \<open>min_total_seconds \<le> 0\<close> and \<open>min_iterations \<ge> 2\<close> the loop test
  fails at once: the callable is invoked exactly once, for the warm-up, no duration is
  recorded, and when that warm-up returns, \<open>benchmark\<close> returns a result whose mean and
  standard deviation are \<open>nan\<close>, the statistics of the empty list. (When the warm-up
  itself raises, its exception leaves \<open>benchmark\<close>, also after one invocation.)
\<close>

theorem nonpositive_budget_skips_loop:
  "min_total_seconds \<le> 0 \<Longrightarrow> 2 \<le> min_iterations \<Longrightarrow>
     benchmark_times fn min_total_seconds min_iterations =
       (case fn 0 of
          Returns t \<Rightarrow> Some (1, Inr [])
        | Raises e \<Rightarrow> Some (1, Inl (Propagated e)))
     \<and> benchmark fn min_total_seconds min_iterations =
       (case fn 0 of
          Returns t \<Rightarrow> Some (1, Inr \<lparr> mean = NaN, std = NaN \<rparr>)
        | Raises e \<Rightarrow> Some (1, Inl (Propagated e)))"
  by (simp add: run_defs warm_up_eq accumulate.simps split: outcome.splits)

theorem nonpositive_budget_skips_loop_witness:
  "(0::real) \<le> 0 \<and> (2::int) \<le> 2
   \<and> benchmark_times (constant_callable (1/2) :: unit callable) 0 2 = Some (1, Inr [])
   \<and> benchmark (constant_callable (1/2) :: unit callable) 0 2
       = Some (1, Inr \<lparr> mean = NaN, std = NaN \<rparr>)"
  using nonpositive_budget_skips_loop [of 0 2 "constant_callable (1/2) :: unit callable"]
  by (simp add: constant_callable_apply)

text \<open>
  Claim C1. A run that returns is to have recorded at least \<open>min_iterations\<close> trials
  and at least \<open>min_total_seconds\<close> of durations. The code misses the first floor when
  the budget is not positive: with \<open>min_total_seconds = 0\<close> and \<open>min_iterations = 2\<close>
  it returns after the warm-up with no trial recorded, fewer than the two asked for.
  (For a positive budget both floors hold: \<open>positive_budget_floors\<close> and
  \<open>constant_duration_trials\<close> above.)
\<close>

theorem zero_budget_records_no_trials:
  "benchmark_times (constant_callable 1 :: unit callable) 0 2 = Some (1, Inr [])
   \<and> int (length ([] :: real list)) < 2"
  by (simp add: run_defs warm_up_eq constant_callable_apply accumulate.simps)

text \<open>
  Claim C8. A run that returns is to give a finite mean and a finite standard deviation
  \<open>\<ge> 0\<close>. With a budget that is not positive the code returns \<open>nan\<close> in both fields:
  here for \<open>min_total_seconds = -1\<close> and \<open>min_iterations = 3\<close>.
  (For a positive budget both are finite: \<open>positive_budget_result_finite\<close> above.)
\<close>

theorem negative_budget_result_is_nan:
  "benchmark (constant_callable (1/4) :: unit callable) (- 1) 3
     = Some (1, Inr \<lparr> mean = NaN, std = NaN \<rparr>)"
  by (simp add: run_defs warm_up_eq constant_callable_apply accumulate.simps)

text \<open>
  Claim C5. In every run that returns a result, the callable was invoked once more than
  there are recorded trials: invocation 0 is the warm-up, it returned, and the recorded
  durations are those of the invocations 1, 2, ... in order. The result is the statistics
  of that list, and the duration of the warm-up does not enter it: the run with any other
  warm-up duration returns the same result after the same number of invocations.
\<close>

theorem warm_up_once_and_excluded:
  assumes "benchmark fn T k = Some (c, Inr r)"
  shows "\<exists>t0 ts. fn 0 = Returns t0
           \<and> benchmark_times fn T k = Some (c, Inr ts)
           \<and> c = 1 + length ts
           \<and> (\<forall>j<length ts. fn (Suc j) = Returns (ts ! j))
           \<and> r = \<lparr> mean = tensor_mean ts, std = tensor_std ts \<rparr>
           \<and> (\<forall>t'. benchmark (fn(0 := Returns t')) T k = Some (c, Inr r))"
proof -
  from assms obtain ts where run: "benchmark_times fn T k = Some (c, Inr ts)"
    and r: "r = \<lparr> mean = tensor_mean ts, std = tensor_std ts \<rparr>"
    by (rule benchmark_Inr)
  from run obtain t0 where t0: "fn 0 = Returns t0"
    by (rule benchmark_times_Inr)
  have "benchmark (fn(0 := Returns t')) T k = Some (c, Inr r)" for t'
    using benchmark_times_warm_up_duration[of fn t0 t' T k, OF t0] assms
    by (simp add: benchmark_def)
  with t0 run r benchmark_times_recorded(1,3)[OF run] show ?thesis
    by blast
qed

theorem warm_up_once_and_excluded_witness:
  "benchmark (constant_callable (1/2) :: unit callable) 1 2
     = Some (3, Inr \<lparr> mean = Finite (1/2), std = Finite 0 \<rparr>)
   \<and> benchmark_times (constant_callable (1/2) :: unit callable) 1 2
       = Some (1 + length [1/2, 1/2 :: real], Inr [1/2, 1/2])
   \<and> benchmark ((constant_callable (1/2) :: unit callable)(0 := Returns 60)) 1 2
       = Some (3, Inr \<lparr> mean = Finite (1/2), std = Finite 0 \<rparr>)"
proof -
  let ?fn = "constant_callable (1/2) :: unit callable"
  let ?r = "\<lparr> mean = Finite (1/2), std = Finite 0 \<rparr>"
  have run: "benchmark ?fn 1 2 = Some (3, Inr ?r)"
    by (simp add: run_defs warm_up_eq constant_callable_apply timer_repeat_constant
        accumulate.simps)
  from warm_up_once_and_excluded [OF run] obtain t0 ts where
    "?fn 0 = Returns t0"
    "benchmark_times ?fn 1 2 = Some (3, Inr ts)" "3 = 1 + length ts"
    "\<forall>j<length ts. ?fn (Suc j) = Returns (ts ! j)"
    "\<forall>t'. benchmark (?fn(0 := Returns t')) 1 2 = Some (3, Inr ?r)"
    by blast
  moreover from this have "ts ! 0 = 1/2" "ts ! 1 = 1/2" "length ts = 2"
    by (simp_all add: constant_callable_apply)
  then have "ts = [1/2, 1/2]"
    by (simp add: list_eq_iff_nth_eq less_Suc_eq numeral_2_eq_2)
  ultimately show ?thesis using run by simp
qed

text \<open>
  Claim C6. In every run that returns a result, the list the statistics are taken of is
  the list of the durations of the invocations 1 to \<open>c - 1\<close> (invocation 0, the
  warm-up, is not in it); the reported mean is its arithmetic mean; the reported standard
  deviation is its sample standard deviation, the one that divides by \<open>N - 1\<close>. A
  positive budget gives at least two trials, so that both are defined; on the empty list
  \<open>torch\<close> gives \<open>nan\<close> for both. Equality is exact here, since durations are reals.
\<close>

theorem result_is_sample_statistics:
  assumes "benchmark fn T k = Some (c, Inr r)"
  shows "\<exists>ts. length ts = c - 1
           \<and> (\<forall>j<length ts. fn (Suc j) = Returns (ts ! j))
           \<and> (0 < T \<longrightarrow> 2 \<le> length ts)
           \<and> (ts \<noteq> [] \<longrightarrow> mean r = Finite (arithmetic_mean ts))
           \<and> (2 \<le> length ts \<longrightarrow> std r = Finite (sample_std ts))
           \<and> (ts = [] \<longrightarrow> mean r = NaN \<and> std r = NaN)"
proof -
  from assms obtain ts where run: "benchmark_times fn T k = Some (c, Inr ts)"
    and r: "r = \<lparr> mean = tensor_mean ts, std = tensor_std ts \<rparr>"
    by (rule benchmark_Inr)
  from run have k: "2 \<le> k" by (rule benchmark_times_Inr)
  have "2 \<le> length ts" if "0 < T"
    using benchmark_times_min_trials[OF run that] k by simp
  moreover have "mean r = Finite (arithmetic_mean ts)" if "ts \<noteq> []"
    using that r by (simp add: tensor_mean_arithmetic)
  moreover have "std r = Finite (sample_std ts)" if "2 \<le> length ts"
    using that r by (simp add: tensor_std_sample)
  moreover have "mean r = NaN \<and> std r = NaN" if "ts = []"
    using that r by (simp add: tensor_mean_def tensor_std_def)
  ultimately show ?thesis
    using benchmark_times_recorded(1,3)[OF run] by (intro exI[of _ ts]) simp
qed

theorem result_is_sample_statistics_witness:
  "benchmark (speeding_callable 2 1 3 :: unit callable) 4 2
     = Some (3, Inr \<lparr> mean = Finite 2, std = Finite (sqrt 2) \<rparr>)
   \<and> arithmetic_mean [1, 3] = 2 \<and> sample_std [1, 3] = sqrt 2
   \<and> (\<exists>ts. length ts = 3 - 1 \<and> Finite 2 = Finite (arithmetic_mean ts)
          \<and> Finite (sqrt 2) = Finite (sample_std ts))
   \<and> benchmark (speeding_callable 2 1 3 :: unit callable) 0 2
       = Some (1, Inr \<lparr> mean = NaN, std = NaN \<rparr>)
   \<and> (\<exists>ts :: real list. length ts = 1 - 1 \<and> ts = [])"
proof -
  let ?fn = "speeding_callable 2 1 3 :: unit callable"
  let ?r = "\<lparr> mean = Finite 2, std = Finite (sqrt 2) \<rparr>"
  have run: "benchmark ?fn 4 2 = Some (3, Inr ?r)"
    by (simp add: run_defs warm_up_eq speeding_callable_def numeral_2_eq_2
        accumulate.simps)
  from result_is_sample_statistics [OF run] obtain ts where
    "length ts = 3 - 1" "0 < (4::real) \<longrightarrow> 2 \<le> length ts"
    "ts \<noteq> [] \<longrightarrow> mean ?r = Finite (arithmetic_mean ts)"
    "2 \<le> length ts \<longrightarrow> std ?r = Finite (sample_std ts)"
    by blast
  then have "length ts = 3 - 1 \<and> Finite 2 = Finite (arithmetic_mean ts)
      \<and> Finite (sqrt 2) = Finite (sample_std ts)"
    by auto
  moreover have "arithmetic_mean [1, 3] = 2" "sample_std [1, 3] = sqrt 2"
    by (simp_all add: arithmetic_mean_def sample_std_def)
  moreover have run0: "benchmark ?fn 0 2 = Some (1, Inr \<lparr> mean = NaN, std = NaN \<rparr>)"
    by (simp add: run_defs warm_up_eq speeding_callable_def accumulate.simps)
  moreover from result_is_sample_statistics [OF run0]
  have "\<exists>ts :: real list. length ts = 1 - 1 \<and> ts = []"
    by auto
  ultimately show ?thesis using run by blast
qed

text \<open>
  Claim C7. An exception of the callable leaves \<open>benchmark\<close> as it is, at once and
  with no result. If the invocation number \<open>i\<close> of the callable raises \<open>e\<close>, the run
  does end, it never goes past that invocation, and when that invocation was made
  (the counter is \<open>i + 1\<close>) the outcome is the exception \<open>e\<close>. A callable that raises
  on the warm-up is invoked once; one that raises on its second invocation is invoked
  twice (a second invocation takes place only when the budget is positive).
\<close>

theorem callable_error_propagates:
  "(fn i = Raises e \<longrightarrow>
      (\<exists>c res. benchmark fn T k = Some (c, res) \<and> c \<le> Suc i
         \<and> (c = Suc i \<longrightarrow> res = Inl (Propagated e))))
   \<and> (2 \<le> k \<and> fn 0 = Raises e \<longrightarrow> benchmark fn T k = Some (1, Inl (Propagated e)))
   \<and> (2 \<le> k \<and> 0 < T \<and> fn 0 = Returns t \<and> fn 1 = Raises e \<longrightarrow>
        benchmark fn T k = Some (2, Inl (Propagated e)))"
  using benchmark_reaches_raise[where fn = fn and i = i and e = e and T = T and k = k]
    raise_on_warm_up[where fn = fn and e = e and T = T and k = k]
    raise_on_first_trial[where fn = fn and e = e and T = T and k = k and t = t]
  by blast

theorem callable_error_propagates_witness:
  "benchmark (raising_callable 1 () (1/2)) 1 2 = Some (2, Inl (Propagated ()))
   \<and> benchmark (raising_callable 0 () (1/2)) 1 2 = Some (1, Inl (Propagated ()))
   \<and> (\<exists>c res. benchmark (raising_callable 7 () (1/2)) 10 2 = Some (c, res) \<and> c \<le> 8)"
proof -
  have "benchmark (raising_callable 1 () (1/2)) 1 2 = Some (2, Inl (Propagated ()))"
    using callable_error_propagates [of "raising_callable 1 () (1/2)" 1 "()" 1 2 "1/2"]
    by (simp add: raising_callable_def)
  moreover have "benchmark (raising_callable 0 () (1/2)) 1 2 = Some (1, Inl (Propagated ()))"
    using callable_error_propagates [of "raising_callable 0 () (1/2)" 0 "()" 1 2 "1/2"]
    by (simp add: raising_callable_def)
  moreover have "\<exists>c res. benchmark (raising_callable 7 () (1/2)) 10 2 = Some (c, res) \<and> c \<le> 8"
    using callable_error_propagates [of "raising_callable 7 () (1/2)" 7 "()" 10 2 "1/2"]
    by (auto simp add: raising_callable_def)
  ultimately show ?thesis by blast
qed



text \<open>
  Claim C3, as stated, says that the next batch size is the estimate over the average of
  all durations recorded so far. The code divides by the average of the last batch only.
  For a callable whose first three invocations take 1 s and the later ones 0.5 s, with a
  budget of 10 s and \<open>min_iterations = 2\<close>: the first pass records \<open>[1, 1]\<close> and asks
  for 8 trials; the second pass records eight times 0.5, the total is 6, still below the
  budget, and the code asks for \<open>ceil(4 / 0.5) = 8\<close> trials, where the average over all
  ten durations, 0.6, gives \<open>ceil(4 / 0.6) = 7\<close>.
\<close>

theorem estimate_uses_overall_average_counterexample:
  "pass (speeding_callable 3 1 (1/2) :: unit callable) 10 (init_state 1 2)
     \<lparr> calls = 3, times_acc = [1, 1], total_time = 2, num_iterations = 8 \<rparr>
   \<and> pass (speeding_callable 3 1 (1/2) :: unit callable) 10
     \<lparr> calls = 3, times_acc = [1, 1], total_time = 2, num_iterations = 8 \<rparr>
     \<lparr> calls = 11, times_acc = [1, 1, 1/2, 1/2, 1/2, 1/2, 1/2, 1/2, 1/2, 1/2],
       total_time = 6, num_iterations = 8 \<rparr>
   \<and> total_time \<lparr> calls = 11, times_acc = [1, 1, 1/2, 1/2, 1/2, 1/2, 1/2, 1/2, 1/2, 1/2],
       total_time = 6, num_iterations = 8 \<rparr> < 10
   \<and> spec_estimate 10
       \<lparr> calls = 11, times_acc = [1, 1, 1/2, 1/2, 1/2, 1/2, 1/2, 1/2, 1/2, 1/2],
         total_time = 6, num_iterations = 8 \<rparr> = 7
   \<and> num_iterations
       \<lparr> calls = 11, times_acc = [1, 1, 1/2, 1/2, 1/2, 1/2, 1/2, 1/2, 1/2, 1/2],
         total_time = 6, num_iterations = 8 \<rparr>
     \<noteq> spec_estimate 10
       \<lparr> calls = 11, times_acc = [1, 1, 1/2, 1/2, 1/2, 1/2, 1/2, 1/2, 1/2, 1/2],
         total_time = 6, num_iterations = 8 \<rparr>"
  by (simp add: pass_def run_defs spec_estimate_def speeding_callable_def eval_nat_numeral)

text \<open>
  Claim C3, amended. On every pass of the loop that ends normally, in a run of
  \<open>benchmark\<close>, the number of trials asked for the next batch is
  \<open>ceil((min_total_seconds - elapsed) / a)\<close>, where \<open>elapsed\<close> is the sum of all
  durations recorded so far and \<open>a\<close> is the average duration of the batch just run:
  the sum of that batch divided by its size.
\<close>

theorem estimate_uses_batch_average:
  assumes "(pass fn T)\<^sup>*\<^sup>* (init_state c0 k) s" and "pass fn T s s'"
  shows "\<exists>batch. times_acc s' = times_acc s @ batch
           \<and> batch \<noteq> [] \<and> int (length batch) = num_iterations s
           \<and> total_time s' = sum_list (times_acc s')
           \<and> num_iterations s'
               = \<lceil>(T - sum_list (times_acc s')) / (sum_list batch / real (length batch))\<rceil>"
proof -
  from assms(2) have lb: "loop_body fn T s = Inr s'" by (simp add: pass_def)
  then obtain batch where
    tr: "timer_repeat fn (nat (num_iterations s)) (calls s) = (calls s', Inr batch)"
    and pos: "0 < num_iterations s"
    and ta: "times_acc s' = times_acc s @ batch"
    and n': "num_iterations s'
        = \<lceil>(T - total_time s') / (sum_list batch / real_of_int (num_iterations s))\<rceil>"
    by (rule loop_body_Inr)
  from timer_repeat_Inr[OF tr] pos have len: "int (length batch) = num_iterations s"
    by simp
  then have rl: "real (length batch) = real_of_int (num_iterations s)"
    by (metis of_int_of_nat_eq)
  from len pos have ne: "batch \<noteq> []" by auto
  from passes_records[OF assms(1) records_init] assms(2)
  have tot: "total_time s' = sum_list (times_acc s')"
    using pass_records[of fn T s s' c0] by (simp add: records_def)
  from n' have "num_iterations s'
      = \<lceil>(T - sum_list (times_acc s')) / (sum_list batch / real (length batch))\<rceil>"
    by (simp only: rl tot)
  with ta ne len tot show ?thesis by blast
qed

theorem estimate_uses_batch_average_witness:
  "\<exists>batch. [1, 1, 1/2, 1/2, 1/2, 1/2, 1/2, 1/2, 1/2, 1/2 :: real] = [1, 1] @ batch
      \<and> int (length batch) = 8
      \<and> (8::int) = \<lceil>(10 - 6) / (sum_list batch / real (length batch))\<rceil>"
proof -
  let ?fn = "speeding_callable 3 1 (1/2) :: unit callable"
  let ?s1 = "\<lparr> calls = 3, times_acc = [1, 1], total_time = 2, num_iterations = 8 \<rparr>"
  let ?s2 = "\<lparr> calls = 11, times_acc = [1, 1, 1/2, 1/2, 1/2, 1/2, 1/2, 1/2, 1/2, 1/2],
       total_time = 6, num_iterations = 8 \<rparr>"
  have "pass ?fn 10 (init_state 1 2) ?s1"
    by (simp add: pass_def run_defs speeding_callable_def eval_nat_numeral)
  then have reach: "(pass ?fn 10)\<^sup>*\<^sup>* (init_state 1 2) ?s1" by (rule r_into_rtranclp)
  have step: "pass ?fn 10 ?s1 ?s2"
    by (simp add: pass_def run_defs speeding_callable_def eval_nat_numeral)
  from estimate_uses_batch_average [OF reach step] show ?thesis by simp
qed

text \<open>
  Claim C4, as stated, says that the estimate never divides by zero, the average being
  clamped to a positive epsilon. The code has no clamp: a callable whose measured
  durations are all exactly zero, with a budget of 1 s and \<open>min_iterations = 2\<close>, makes
  \<open>benchmark\<close> raise \<open>ZeroDivisionError\<close> after the warm-up and the first two trials.
\<close>

theorem estimate_never_divides_by_zero_counterexample:
  "benchmark (constant_callable 0 :: unit callable) 1 2 = Some (3, Inl ZeroDivisionError)"
  by (simp add: run_defs warm_up_eq constant_callable_apply timer_repeat_constant
      accumulate.simps)

text \<open>
  Claim C4, amended. The estimate divides by the average of the batch just run, as it
  is. When the durations of a batch that ran to its end sum to exactly zero (all of them
  zero, or an empty batch), the pass raises \<open>ZeroDivisionError\<close>, after the invocations
  of that batch; when the sum is not zero, the pass ends normally with the estimate
  \<open>ceil((min_total_seconds - elapsed) / avg)\<close>.
\<close>

theorem estimate_divides_by_batch_average:
  assumes "timer_repeat fn (nat (num_iterations s)) (calls s) = (c', Inr batch)"
  shows "(sum_list batch = 0 \<longrightarrow> loop_body fn T s = Inl (c', ZeroDivisionError))
       \<and> (sum_list batch \<noteq> 0 \<longrightarrow>
            (\<exists>s'. loop_body fn T s = Inr s' \<and> calls s' = c'
               \<and> total_time s' = total_time s + sum_list batch
               \<and> num_iterations s'
                   = \<lceil>(T - total_time s')
                       / (sum_list batch / real_of_int (num_iterations s))\<rceil>))"
proof (intro conjI impI)
  assume "sum_list batch = 0"
  with assms show "loop_body fn T s = Inl (c', ZeroDivisionError)"
    by (simp add: loop_body_def Let_def)
next
  assume nz: "sum_list batch \<noteq> 0"
  then have "batch \<noteq> []" by auto
  with timer_repeat_Inr[OF assms] have "num_iterations s \<noteq> 0" by auto
  with assms nz show "\<exists>s'. loop_body fn T s = Inr s' \<and> calls s' = c'
      \<and> total_time s' = total_time s + sum_list batch
      \<and> num_iterations s'
          = \<lceil>(T - total_time s') / (sum_list batch / real_of_int (num_iterations s))\<rceil>"
    by (simp add: loop_body_def Let_def)
qed

theorem estimate_divides_by_batch_average_witness:
  "loop_body (constant_callable 0 :: unit callable) 1 (init_state 1 2)
     = Inl (3, ZeroDivisionError)
   \<and> (\<exists>s'. loop_body (constant_callable (1/4) :: unit callable) 1 (init_state 1 2) = Inr s'
          \<and> calls s' = 3 \<and> total_time s' = 1/2 \<and> num_iterations s' = 2)"
proof -
  have zero: "timer_repeat (constant_callable 0 :: unit callable)
      (nat (num_iterations (init_state 1 2))) (calls (init_state 1 2)) = (3, Inr [0, 0])"
    by (simp add: timer_repeat_constant init_state_def replicate_two)
  have quarter: "timer_repeat (constant_callable (1/4) :: unit callable)
      (nat (num_iterations (init_state 1 2))) (calls (init_state 1 2)) = (3, Inr [1/4, 1/4])"
    by (simp add: timer_repeat_constant init_state_def replicate_two)
  from estimate_divides_by_batch_average [OF zero, of 1]
  have "loop_body (constant_callable 0 :: unit callable) 1 (init_state 1 2)
      = Inl (3, ZeroDivisionError)"
    by simp
  moreover have "\<exists>s'. loop_body (constant_callable (1/4) :: unit callable) 1 (init_state 1 2) = Inr s'
      \<and> calls s' = 3 \<and> total_time s' = 1/2 \<and> num_iterations s' = 2"
  proof -
    from estimate_divides_by_batch_average [OF quarter, of 1] obtain s' where
      lb: "loop_body (constant_callable (1/4) :: unit callable) 1 (init_state 1 2) = Inr s'"
      and c: "calls s' = 3"
      and tt: "total_time s' = total_time (init_state 1 2) + sum_list [1/4, 1/4]"
      and n: "num_iterations s' = \<lceil>(1 - total_time s')
          / (sum_list [1/4, 1/4] / real_of_int (num_iterations (init_state 1 2)))\<rceil>"
      by auto
    from tt have tt': "total_time s' = 1/2" by (simp add: init_state_def)
    from n have "num_iterations s' = 2" by (simp add: tt' init_state_def)
    with lb c tt' show ?thesis by blast
  qed
  ultimately show ?thesis by blast
qed

end
